theory Spec2Isabelle
  imports Complex_Main "HOL-Library.Sublist"
begin

section \<open>JavaScript numbers\<close>

text \<open>
  A JavaScript number is a double: \<open>NaN\<close>, plus or minus \<open>Infinity\<close>, or a finite value.
  A finite value is kept as the real number it denotes; the sign of zero is not kept:
  \<open>-0\<close> and \<open>+0\<close> compare equal under \<open><\<close> and \<open>>=\<close>, so no branch of the program
  depends on it.
\<close>

datatype number = NaN | Finite real | PosInfinity | NegInfinity

subsection \<open>Rounding to the nearest double\<close>

text \<open>Round to the nearest integer, a tie going to the even one.\<close>

definition round_half_even :: "real \<Rightarrow> int" where
  "round_half_even q =
     (let f = \<lfloor>q\<rfloor>; r = q - of_int f
      in if r < 1 / 2 then f else if 1 / 2 < r then f + 1 else if even f then f else f + 1)"

text \<open>
  The binary exponent of a magnitude \<open>a < 2^1024\<close>: the largest \<open>e\<close> with \<open>2^e \<le> a\<close>, but
  never below \<open>-1022\<close>, the exponent of the subnormal range. It is found bit by bit,
  \<open>n\<close> bits being left to decide above \<open>lo\<close>.
\<close>

fun exponent_search :: "nat \<Rightarrow> int \<Rightarrow> real \<Rightarrow> int" where
  "exponent_search 0 lo a = lo"
| "exponent_search (Suc n) lo a =
     (if 2 powi (lo + 2 ^ n) \<le> a then exponent_search n (lo + 2 ^ n) a
      else exponent_search n lo a)"

definition exponent :: "real \<Rightarrow> int" where
  "exponent x = exponent_search 11 (- 1022) \<bar>x\<bar>"

text \<open>The spacing of the doubles around \<open>x\<close>: 53 significant bits.\<close>

definition ulp :: "real \<Rightarrow> real" where
  "ulp x = 2 powi (exponent x - 52)"

definition overflow :: "real \<Rightarrow> number" where
  "overflow x = (if x < 0 then NegInfinity else PosInfinity)"

text \<open>
  The double nearest to a real number (IEEE 754 binary64, round to nearest, ties to
  even): the result of every arithmetic operation and of every numeric literal. A result
  of magnitude \<open>2^1024\<close> or more is infinite.
\<close>

definition round_double :: "real \<Rightarrow> number" where
  "round_double x =
     (if 2 ^ 1024 \<le> \<bar>x\<bar> then overflow x
      else let r = of_int (round_half_even (x / ulp x)) * ulp x
           in if 2 ^ 1024 \<le> \<bar>r\<bar> then overflow x else Finite r)"

text \<open>The reals that are doubles: rounding leaves them as they are.\<close>

definition is_double :: "real \<Rightarrow> bool" where
  "is_double x \<longleftrightarrow> round_double x = Finite x"

subsection \<open>Operators\<close>

text \<open>\<open>a + b\<close> and \<open>a - b\<close>.\<close>

fun js_add :: "number \<Rightarrow> number \<Rightarrow> number" where
  "js_add NaN b = NaN"
| "js_add a NaN = NaN"
| "js_add PosInfinity NegInfinity = NaN"
| "js_add NegInfinity PosInfinity = NaN"
| "js_add PosInfinity b = PosInfinity"
| "js_add a PosInfinity = PosInfinity"
| "js_add NegInfinity b = NegInfinity"
| "js_add a NegInfinity = NegInfinity"
| "js_add (Finite x) (Finite y) = round_double (x + y)"

fun js_sub :: "number \<Rightarrow> number \<Rightarrow> number" where
  "js_sub NaN b = NaN"
| "js_sub a NaN = NaN"
| "js_sub PosInfinity PosInfinity = NaN"
| "js_sub NegInfinity NegInfinity = NaN"
| "js_sub PosInfinity b = PosInfinity"
| "js_sub a NegInfinity = PosInfinity"
| "js_sub NegInfinity b = NegInfinity"
| "js_sub a PosInfinity = NegInfinity"
| "js_sub (Finite x) (Finite y) = round_double (x - y)"

text \<open>\<open>a < b\<close> and \<open>a >= b\<close>: both are false when an operand is \<open>NaN\<close>.\<close>

fun js_lt :: "number \<Rightarrow> number \<Rightarrow> bool" where
  "js_lt NaN b = False"
| "js_lt a NaN = False"
| "js_lt PosInfinity b = False"
| "js_lt a NegInfinity = False"
| "js_lt NegInfinity b = True"
| "js_lt a PosInfinity = True"
| "js_lt (Finite x) (Finite y) = (x < y)"

fun js_ge :: "number \<Rightarrow> number \<Rightarrow> bool" where
  "js_ge NaN b = False"
| "js_ge a NaN = False"
| "js_ge PosInfinity b = True"
| "js_ge a NegInfinity = True"
| "js_ge NegInfinity b = False"
| "js_ge a PosInfinity = False"
| "js_ge (Finite x) (Finite y) = (y \<le> x)"

text \<open>\<open>Math.min(a, b)\<close> and \<open>Math.max(a, b)\<close>: \<open>NaN\<close> when an argument is \<open>NaN\<close>.\<close>

fun Math_min :: "number \<Rightarrow> number \<Rightarrow> number" where
  "Math_min NaN b = NaN"
| "Math_min a NaN = NaN"
| "Math_min NegInfinity b = NegInfinity"
| "Math_min a NegInfinity = NegInfinity"
| "Math_min PosInfinity b = b"
| "Math_min a PosInfinity = a"
| "Math_min (Finite x) (Finite y) = Finite (min x y)"

fun Math_max :: "number \<Rightarrow> number \<Rightarrow> number" where
  "Math_max NaN b = NaN"
| "Math_max a NaN = NaN"
| "Math_max PosInfinity b = PosInfinity"
| "Math_max a PosInfinity = PosInfinity"
| "Math_max NegInfinity b = b"
| "Math_max a NegInfinity = a"
| "Math_max (Finite x) (Finite y) = Finite (max x y)"

definition isNaN :: "number \<Rightarrow> bool" where
  "isNaN n \<longleftrightarrow> n = NaN"

text \<open>\<open>Number.MAX_VALUE\<close>, the largest finite double: \<open>(2^53 - 1) * 2^971\<close>.\<close>

definition MAX_VALUE :: number where
  "MAX_VALUE = Finite ((2 ^ 53 - 1) * 2 ^ 971)"


section \<open>The rolling time window (rollingtime.js)\<close>

record observation =
  timestamp :: number
  cost :: number

text \<open>
  The class \<open>RollingTime\<close>. The fields \<open>sum\<close>, \<open>min\<close> and \<open>max\<close> of the source carry the
  suffix \<open>_rt\<close> here, since HOL has constants of those names.
\<close>

record rolling_time =
  TAU :: number
  observations :: "observation list"
  sum_rt :: number
  min_rt :: number
  max_rt :: number

text \<open>The constructor: it stores \<open>TAU\<close> as given and checks nothing.\<close>

definition RollingTime :: "number \<Rightarrow> rolling_time" where
  "RollingTime tau =
     \<lparr>TAU = tau, observations = [], sum_rt = Finite 0, min_rt = MAX_VALUE, max_rt = Finite 0\<rparr>"

text \<open>
  The \<open>forEach\<close> loop of the else branch of \<open>put\<close>: it walks the buffer in order, counts in
  \<open>newStartIndex\<close> the observations with \<open>timestamp - TAU >= obs.timestamp\<close> and folds
  every other one into \<open>sum\<close>, \<open>min\<close> and \<open>max\<close>.
\<close>

fun rescan :: "number \<Rightarrow> observation list \<Rightarrow> rolling_time \<times> nat \<Rightarrow> rolling_time \<times> nat" where
  "rescan t [] (rtw, newStartIndex) = (rtw, newStartIndex)"
| "rescan t (obs # rest) (rtw, newStartIndex) =
     (if js_ge (js_sub t (TAU rtw)) (timestamp obs)
      then rescan t rest (rtw, newStartIndex + 1)
      else rescan t rest
             (rtw\<lparr>sum_rt := js_add (sum_rt rtw) (cost obs),
                  min_rt := Math_min (min_rt rtw) (cost obs),
                  max_rt := Math_max (max_rt rtw) (cost obs)\<rparr>, newStartIndex))"

text \<open>
  \<open>put(timestamp, cost)\<close>. The push comes first, so \<open>observations[0]\<close> is read from a
  non-empty array; \<open>slice(newStartIndex)\<close> is \<open>drop\<close>.
\<close>

definition put :: "rolling_time \<Rightarrow> number \<Rightarrow> number \<Rightarrow> rolling_time" where
  "put rtw t c =
     (let pushed = rtw\<lparr>observations := observations rtw @ [\<lparr>timestamp = t, cost = c\<rparr>]\<rparr>
      in if js_lt (js_sub t (TAU pushed)) (timestamp (hd (observations pushed)))
         then pushed\<lparr>sum_rt := js_add (sum_rt pushed) c,
                     min_rt := Math_min (min_rt pushed) c,
                     max_rt := Math_max (max_rt pushed) c\<rparr>
         else (case rescan t (observations pushed)
                      (pushed\<lparr>sum_rt := Finite 0, min_rt := MAX_VALUE, max_rt := Finite 0\<rparr>, 0) of
                 (scanned, newStartIndex) \<Rightarrow>
                   scanned\<lparr>observations := drop newStartIndex (observations scanned)\<rparr>))"

text \<open>A sequence of \<open>put\<close> calls, given as (timestamp, cost) pairs, and the states it goes through.\<close>

fun puts :: "rolling_time \<Rightarrow> (number \<times> number) list \<Rightarrow> rolling_time" where
  "puts rtw [] = rtw"
| "puts rtw ((t, c) # rest) = puts (put rtw t c) rest"

fun trace :: "rolling_time \<Rightarrow> (number \<times> number) list \<Rightarrow> rolling_time list" where
  "trace rtw [] = []"
| "trace rtw ((t, c) # rest) = put rtw t c # trace (put rtw t c) rest"

text \<open>What the tests' \<open>checkRtw\<close> reads: the number of observations, sum, min and max.\<close>

definition checkRtw :: "rolling_time \<Rightarrow> nat \<times> number \<times> number \<times> number" where
  "checkRtw rtw = (length (observations rtw), sum_rt rtw, min_rt rtw, max_rt rtw)"

text \<open>
  Calls whose timestamps are finite, given by the real value of the timestamp; the cost
  is any number.
\<close>

definition finite_times :: "(real \<times> number) list \<Rightarrow> (number \<times> number) list" where
  "finite_times xs = map (\<lambda>(t, c). (Finite t, c)) xs"

text \<open>
  Successive observations more than \<open>tau\<close> apart: each timestamp exceeds the previous one
  by strictly more than the window size.
\<close>

fun spaced :: "real \<Rightarrow> (real \<times> number) list \<Rightarrow> bool" where
  "spaced tau [] = True"
| "spaced tau [p] = True"
| "spaced tau (p # q # rest) = (fst q - fst p > tau \<and> spaced tau (q # rest))"

text \<open>
  The real value of a finite timestamp, and the states a \<open>put\<close> starts from under the
  sorted-input assumption of the source: the buffer is in timestamp order, its timestamps
  are finite doubles, and none is newer than \<open>b\<close>.
\<close>

definition time_of :: "observation \<Rightarrow> real" where
  "time_of ob = (case timestamp ob of Finite x \<Rightarrow> x | _ \<Rightarrow> 0)"

definition ordered_upto :: "real \<Rightarrow> rolling_time \<Rightarrow> bool" where
  "ordered_upto b s \<longleftrightarrow>
     sorted (map time_of (observations s)) \<and>
     (\<forall>ob\<in>set (observations s).
        timestamp ob = Finite (time_of ob) \<and> is_double (time_of ob) \<and> time_of ob \<le> b)"


section \<open>The command-line program (main.js)\<close>

text \<open>
  \<open>TypeError\<close> is the exception JavaScript throws when a property of \<open>undefined\<close> is read;
  it is the only exception the program can raise on its own.
\<close>

datatype abort = TypeError

text \<open>
  The expression \<open>new RollingTime(tau)\<close>. The constructor body has no \<open>throw\<close> and no
  check of its argument, so the expression always completes normally.
\<close>

definition new_RollingTime :: "number \<Rightarrow> abort + rolling_time" where
  "new_RollingTime tau = Inr (RollingTime tau)"

subsection \<open>Strings\<close>

text \<open>
  A JavaScript string is a sequence of UTF-16 code units, here natural numbers below
  \<open>2^16\<close>. \<open>str\<close> gives the code units of an ASCII literal.
\<close>

type_synonym jsstring = "nat list"

definition str :: "string \<Rightarrow> jsstring" where
  "str s = map of_char s"

definition TAB :: nat where
  "TAB = 9"

subsection \<open>Number(string)\<close>

text \<open>
  \<open>Number\<close> applied to a string follows the \<open>StringNumericLiteral\<close> grammar of ECMAScript:
  white space and line terminators are stripped at both ends; what is left is empty (the
  value is 0), or a decimal literal with optional sign, fraction and exponent, or
  \<open>Infinity\<close> with optional sign, or an unsigned binary, octal or hexadecimal integer
  literal; anything else is \<open>NaN\<close>. The value of a literal is its mathematical value
  rounded to the nearest double.

  \<open>StrWhiteSpaceChar\<close>: tab, LF, VT, FF, CR, space, NBSP, U+1680, U+2000 to U+200A,
  U+2028, U+2029, U+202F, U+205F, U+3000 and U+FEFF.
\<close>

definition isStrWhiteSpaceChar :: "nat \<Rightarrow> bool" where
  "isStrWhiteSpaceChar cu \<longleftrightarrow>
     cu \<in> set [0x09, 0x0A, 0x0B, 0x0C, 0x0D, 0x20, 0xA0, 0x1680, 0x2028, 0x2029, 0x202F,
                0x205F, 0x3000, 0xFEFF] \<or>
     (0x2000 \<le> cu \<and> cu \<le> 0x200A)"

definition trim :: "jsstring \<Rightarrow> jsstring" where
  "trim s = rev (dropWhile isStrWhiteSpaceChar (rev (dropWhile isStrWhiteSpaceChar s)))"

definition digit_value :: "nat \<Rightarrow> nat option" where
  "digit_value cu =
     (if 48 \<le> cu \<and> cu \<le> 57 then Some (cu - 48)
      else if 97 \<le> cu \<and> cu \<le> 102 then Some (cu - 87)
      else if 65 \<le> cu \<and> cu \<le> 70 then Some (cu - 55)
      else None)"

definition isDigit :: "nat \<Rightarrow> nat \<Rightarrow> bool" where
  "isDigit base cu \<longleftrightarrow> (case digit_value cu of None \<Rightarrow> False | Some d \<Rightarrow> d < base)"

definition digits_value :: "nat \<Rightarrow> jsstring \<Rightarrow> nat" where
  "digits_value base ds =
     foldl (\<lambda>acc cu. base * acc + (case digit_value cu of Some d \<Rightarrow> d | None \<Rightarrow> 0)) 0 ds"

definition IntegerLiteral :: "nat \<Rightarrow> jsstring \<Rightarrow> number" where
  "IntegerLiteral base ds =
     (if ds \<noteq> [] \<and> list_all (isDigit base) ds
      then round_double (real (digits_value base ds)) else NaN)"

definition SignedInteger :: "jsstring \<Rightarrow> int option" where
  "SignedInteger s =
     (let (negative, ds) =
            (case s of
               cu # rest \<Rightarrow> if cu = of_char CHR ''-'' then (True, rest)
                            else if cu = of_char CHR ''+'' then (False, rest) else (False, s)
             | [] \<Rightarrow> (False, s))
      in if ds \<noteq> [] \<and> list_all (isDigit 10) ds
         then Some (if negative then - int (digits_value 10 ds) else int (digits_value 10 ds))
         else None)"

definition ExponentPart_opt :: "jsstring \<Rightarrow> int option" where
  "ExponentPart_opt s =
     (case s of
        [] \<Rightarrow> Some 0
      | cu # rest \<Rightarrow>
          if cu = of_char CHR ''e'' \<or> cu = of_char CHR ''E'' then SignedInteger rest else None)"

definition scale10 :: "real \<Rightarrow> int \<Rightarrow> real" where
  "scale10 m e = (if 0 \<le> e then m * 10 ^ nat e else m / 10 ^ nat (- e))"

definition StrUnsignedDecimalLiteral :: "jsstring \<Rightarrow> number" where
  "StrUnsignedDecimalLiteral s =
     (if s = str ''Infinity'' then PosInfinity
      else
        let ip = takeWhile (isDigit 10) s;
            r1 = dropWhile (isDigit 10) s;
            (fp, r2) = (case r1 of
                          cu # rest \<Rightarrow> if cu = of_char CHR ''.''
                                       then (takeWhile (isDigit 10) rest, dropWhile (isDigit 10) rest)
                                       else ([], r1)
                        | [] \<Rightarrow> ([], r1))
        in if ip = [] \<and> fp = [] then NaN
           else (case ExponentPart_opt r2 of
                   None \<Rightarrow> NaN
                 | Some e \<Rightarrow>
                     round_double (scale10 (real (digits_value 10 ip) +
                                            real (digits_value 10 fp) / 10 ^ length fp) e)))"

fun negate :: "number \<Rightarrow> number" where
  "negate NaN = NaN"
| "negate (Finite x) = Finite (- x)"
| "negate PosInfinity = NegInfinity"
| "negate NegInfinity = PosInfinity"

definition StrDecimalLiteral :: "jsstring \<Rightarrow> number" where
  "StrDecimalLiteral s =
     (case s of
        cu # rest \<Rightarrow> if cu = of_char CHR ''+'' then StrUnsignedDecimalLiteral rest
                     else if cu = of_char CHR ''-'' then negate (StrUnsignedDecimalLiteral rest)
                     else StrUnsignedDecimalLiteral s
      | [] \<Rightarrow> StrUnsignedDecimalLiteral s)"

definition StrNumericLiteral :: "jsstring \<Rightarrow> number" where
  "StrNumericLiteral s =
     (case s of
        z # p # ds \<Rightarrow>
          if z = of_char CHR ''0'' \<and> (p = of_char CHR ''b'' \<or> p = of_char CHR ''B'')
          then IntegerLiteral 2 ds
          else if z = of_char CHR ''0'' \<and> (p = of_char CHR ''o'' \<or> p = of_char CHR ''O'')
          then IntegerLiteral 8 ds
          else if z = of_char CHR ''0'' \<and> (p = of_char CHR ''x'' \<or> p = of_char CHR ''X'')
          then IntegerLiteral 16 ds
          else StrDecimalLiteral s
      | _ \<Rightarrow> StrDecimalLiteral s)"

definition Number :: "jsstring \<Rightarrow> number" where
  "Number s = (let t = trim s in if t = [] then Finite 0 else StrNumericLiteral t)"


subsection \<open>Lines, parsing and the read loop\<close>

text \<open>
  \<open>line.split(sep)\<close> for a one-character separator: the fields between the separators,
  one field (the whole string, possibly empty) when there is none.
\<close>

fun split_on :: "nat \<Rightarrow> jsstring \<Rightarrow> jsstring list" where
  "split_on sep [] = [] # []"
| "split_on sep (cu # rest) =
     (if cu = sep then [] # split_on sep rest
      else (case split_on sep rest of
              f # fs \<Rightarrow> (cu # f) # fs
            | [] \<Rightarrow> [cu] # []))"

text \<open>A natural number in decimal, as a template literal prints \<open>curLine\<close>.\<close>

fun decimal :: "nat \<Rightarrow> jsstring" where
  "decimal n = (if n < 10 then [48 + n] else decimal (n div 10) @ [48 + n mod 10])"

text \<open>
  \<open>parseObservation(line, rtw)\<close> returns the error message, or \<open>null\<close> (here \<open>None\<close>)
  after a successful \<open>put\<close>; the window it leaves is the second component. In the first
  message the template literal has an escaped \<open>$\<close> twice and a tab character.
\<close>

definition parseObservation :: "jsstring \<Rightarrow> rolling_time \<Rightarrow> jsstring option \<times> rolling_time" where
  "parseObservation line rtw =
     (let numPair = split_on TAB line
      in if length numPair \<noteq> 2
         then (Some (str ''Expected format: ${TIMESTAMP}'' @ [TAB] @ str ''${COST}, got: '' @ line),
               rtw)
         else if isNaN (Number (numPair ! 0))
         then (Some (str ''Timestamp expected to be a number''), rtw)
         else if isNaN (Number (numPair ! 1))
         then (Some (str ''Cost expected to be a number''), rtw)
         else (None, put rtw (Number (numPair ! 0)) (Number (numPair ! 1))))"

text \<open>
  What the program writes to standard output: fixed text, or a row of the table. A row
  is kept as the six values handed to \<open>printf\<close>; their formatting is not modelled.
\<close>

datatype printed = Text jsstring | Row number number nat number number number

text \<open>
  \<open>printRtwState\<close>: \<open>rtw.observations.slice(-1)[0]\<close> is the last observation, or
  \<open>undefined\<close> for an empty buffer, and reading \<open>.timestamp\<close> of that throws.
\<close>

definition printRtwState :: "rolling_time \<Rightarrow> abort + printed" where
  "printRtwState rtw =
     (case observations rtw of
        [] \<Rightarrow> Inl TypeError
      | _ # _ \<Rightarrow>
          (let lastObservation = last (observations rtw)
           in Inr (Row (timestamp lastObservation) (cost lastObservation)
                       (length (observations rtw)) (sum_rt rtw) (min_rt rtw) (max_rt rtw))))"

definition printTableHeader :: "printed list" where
  "printTableHeader =
     [Text (str ''   Time       Value N_O Roll_Sum Min_Value Max_Value''),
      Text (str ''-------------------------------------------------------'')]"

definition printUsage :: "printed list" where
  "printUsage =
     [Text (str ''Usage:''),
      Text (str ''rollingtime --input (path-to-input-file) [--tau (window-size)]'')]"

text \<open>
  The variables of \<open>main\<close> that the line handler reads and writes, and the two output
  channels.
\<close>

record process =
  the_rtw :: rolling_time
  curLine :: nat
  stdout :: "printed list"
  stderr :: "jsstring list"

text \<open>The handler of the \<open>line\<close> event. An exception it throws ends the program.\<close>

definition line_handler :: "process \<Rightarrow> jsstring \<Rightarrow> abort + process" where
  "line_handler st line =
     (let n = curLine st + 1
      in case parseObservation line (the_rtw st) of
           (None, rtw) \<Rightarrow>
             (case printRtwState rtw of
                Inl a \<Rightarrow> Inl a
              | Inr row \<Rightarrow> Inr (st\<lparr>the_rtw := rtw, curLine := n, stdout := stdout st @ [row]\<rparr>))
         | (Some err, rtw) \<Rightarrow>
             Inr (st\<lparr>the_rtw := rtw, curLine := n,
                     stderr := stderr st @
                       [str ''Error on line '' @ decimal n @ str '': '' @ err]\<rparr>))"

fun read_lines :: "process \<Rightarrow> jsstring list \<Rightarrow> abort + process" where
  "read_lines st [] = Inr st"
| "read_lines st (line # rest) =
     (case line_handler st line of Inl a \<Rightarrow> Inl a | Inr st' \<Rightarrow> read_lines st' rest)"

text \<open>
  \<open>main(args)\<close>. The arguments are \<open>args.tau\<close> and \<open>args.input\<close>, each possibly absent;
  \<open>file\<close> gives the lines of the file at a path.
\<close>

record args =
  args_tau :: "number option"
  args_input :: "jsstring option"

definition start :: "rolling_time \<Rightarrow> process" where
  "start rtw = \<lparr>the_rtw = rtw, curLine = 0, stdout = printTableHeader, stderr = []\<rparr>"

definition main :: "(jsstring \<Rightarrow> jsstring list) \<Rightarrow> args \<Rightarrow> abort + printed list \<times> jsstring list" where
  "main file args =
     (let tau = (case args_tau args of None \<Rightarrow> Finite 60 | Some v \<Rightarrow> v)
      in case args_input args of
           None \<Rightarrow> Inr (printUsage, [])
         | Some input \<Rightarrow>
             (case new_RollingTime tau of
                Inl a \<Rightarrow> Inl a
              | Inr rtw \<Rightarrow>
                  (case read_lines (start rtw) (file input) of
                     Inl a \<Rightarrow> Inl a
                   | Inr st \<Rightarrow> Inr (stdout st, stderr st))))"

text \<open>
  A malformed line, in the words of the specification: it does not split on tab into
  exactly two fields, or one of its fields does not convert to a number.
\<close>

definition malformed :: "jsstring \<Rightarrow> bool" where
  "malformed line \<longleftrightarrow>
     (let fields = split_on TAB line
      in length fields \<noteq> 2 \<or> (\<exists>f \<in> set fields. isNaN (Number f)))"

declare decimal.simps [simp del]


section \<open>Properties of numbers and of the window\<close>

subsection \<open>Rounding\<close>

lemma exponent_search_below:
  "a < 2 powi lo \<Longrightarrow> exponent_search n lo a = lo"
proof (induction n arbitrary: lo)
  case 0
  show ?case by simp
next
  case (Suc n)
  have "(2::real) powi lo \<le> 2 powi (lo + 2 ^ n)"
    by (rule power_int_increasing) simp_all
  with Suc.prems have "\<not> 2 powi (lo + 2 ^ n) \<le> a" by linarith
  with Suc show ?case by simp
qed

lemma exponent_search_lower: "lo \<le> exponent_search n lo a"
proof (induction n arbitrary: lo)
  case 0
  show ?case by simp
next
  case (Suc n)
  have a1: "lo + 2 ^ n \<le> exponent_search n (lo + 2 ^ n) a" by (rule Suc.IH)
  have "(0::int) < 2 ^ n" by simp
  with a1 have "lo \<le> exponent_search n (lo + 2 ^ n) a" by linarith
  moreover have "lo \<le> exponent_search n lo a" by (rule Suc.IH)
  ultimately show ?case by simp
qed

lemma exponent_search_bracket:
  "2 powi lo \<le> a \<Longrightarrow> a < 2 powi (lo + 2 ^ n) \<Longrightarrow>
     2 powi (exponent_search n lo a) \<le> a \<and> a < 2 powi (exponent_search n lo a + 1)"
proof (induction n arbitrary: lo)
  case 0
  then show ?case by simp
next
  case (Suc n)
  show ?case
  proof (cases "2 powi (lo + 2 ^ n) \<le> a")
    case True
    have "lo + 2 ^ n + 2 ^ n = lo + 2 ^ Suc n" by simp
    with Suc.prems(2) have "a < 2 powi (lo + 2 ^ n + 2 ^ n)" by (simp only:)
    from Suc.IH[OF True this] True show ?thesis by simp
  next
    case False
    then show ?thesis using Suc.IH[of lo] Suc.prems(1) by simp
  qed
qed

lemma exponent_ge: "- 1022 \<le> exponent x"
  unfolding exponent_def by (rule exponent_search_lower)

lemma exponent_subnormal: "\<bar>x\<bar> < 2 powi (- 1022) \<Longrightarrow> exponent x = - 1022"
  unfolding exponent_def by (rule exponent_search_below)

lemma exponent_normal:
  assumes "2 powi (- 1022) \<le> \<bar>x\<bar>" and "\<bar>x\<bar> < 2 ^ 1024"
  shows "2 powi (exponent x) \<le> \<bar>x\<bar>" and "\<bar>x\<bar> < 2 powi (exponent x + 1)"
proof -
  have "(2::real) ^ 1024 \<le> 2 powi (- 1022 + 2 ^ 11)"
    by simp
  with assms(2) have "\<bar>x\<bar> < 2 powi (- 1022 + 2 ^ 11)" by linarith
  from exponent_search_bracket[OF assms(1) this]
  show "2 powi (exponent x) \<le> \<bar>x\<bar>" and "\<bar>x\<bar> < 2 powi (exponent x + 1)"
    by (simp_all add: exponent_def)
qed

lemma exponent_upper:
  assumes "\<bar>x\<bar> < 2 ^ 1024"
  shows "\<bar>x\<bar> < 2 powi (exponent x + 1)"
proof (cases "2 powi (- 1022) \<le> \<bar>x\<bar>")
  case True
  then show ?thesis using assms by (rule exponent_normal)
next
  case False
  then have "exponent x = - 1022" by (simp add: exponent_subnormal)
  moreover have "(2::real) powi (- 1022) \<le> 2 powi (- 1022 + 1)"
    by (rule power_int_increasing) simp_all
  ultimately show ?thesis using False by simp
qed

lemma exponent_mono:
  assumes "\<bar>x\<bar> \<le> \<bar>y\<bar>" and "\<bar>y\<bar> < 2 ^ 1024"
  shows "exponent x \<le> exponent y"
proof (rule ccontr)
  assume "\<not> exponent x \<le> exponent y"
  then have lt: "exponent y + 1 \<le> exponent x" by simp
  with exponent_ge[of y] have "exponent x \<noteq> - 1022" by linarith
  then have "2 powi (- 1022) \<le> \<bar>x\<bar>"
    using exponent_subnormal[of x] by fastforce
  moreover from assms have "\<bar>x\<bar> < 2 ^ 1024" by linarith
  ultimately have "2 powi (exponent x) \<le> \<bar>x\<bar>" by (rule exponent_normal)
  moreover have "\<bar>y\<bar> < 2 powi (exponent y + 1)" using assms(2) by (rule exponent_upper)
  moreover have "(2::real) powi (exponent y + 1) \<le> 2 powi (exponent x)"
    using lt by (intro power_int_increasing) simp_all
  ultimately show False using assms(1) by linarith
qed

lemma round_half_even_ge: "of_int n \<le> q \<Longrightarrow> n \<le> round_half_even q"
proof -
  assume "of_int n \<le> q"
  then have "n \<le> \<lfloor>q\<rfloor>" by (simp add: le_floor_iff)
  then show ?thesis by (simp add: round_half_even_def Let_def)
qed

lemma round_half_even_le: "q \<le> of_int n \<Longrightarrow> round_half_even q \<le> n"
proof -
  assume q: "q \<le> of_int n"
  show ?thesis
  proof (cases "q = of_int n")
    case True
    then show ?thesis by (simp add: round_half_even_def Let_def)
  next
    case False
    with q have "q < of_int n" by simp
    then have "\<lfloor>q\<rfloor> < n" by (simp add: floor_less_iff)
    then show ?thesis by (simp add: round_half_even_def Let_def)
  qed
qed

lemma ulp_pos: "0 < ulp x"
  by (simp add: ulp_def)

lemma is_double_multiple:
  assumes "is_double x"
  shows "\<bar>x\<bar> < 2 ^ 1024" and "x = of_int (round_half_even (x / ulp x)) * ulp x"
  using assms by (simp_all add: is_double_def round_double_def overflow_def Let_def split: if_splits)

lemma round_double_ge:
  assumes x: "is_double x" and xy: "x \<le> y"
  shows "js_ge (round_double y) (Finite x)"
proof (cases "2 ^ 1024 \<le> \<bar>y\<bar>")
  case True
  from is_double_multiple(1)[OF x] True xy have "0 \<le> y" by linarith
  with True show ?thesis by (simp add: round_double_def overflow_def)
next
  case False
  then have ylt: "\<bar>y\<bar> < 2 ^ 1024" by simp
  define n where "n = round_half_even (x / ulp x)"
  have xn: "x = of_int n * ulp x" and xlt: "\<bar>x\<bar> < 2 ^ 1024"
    using is_double_multiple[OF x] by (simp_all add: n_def)
  define r where "r = of_int (round_half_even (y / ulp y)) * ulp y"
  have xr: "x \<le> r"
  proof (cases "exponent y \<le> exponent x")
    case True
    define k where "k = nat (exponent x - exponent y)"
    have "exponent x - 52 = (exponent y - 52) + int k"
      using True by (simp add: k_def)
    then have "ulp x = 2 powi ((exponent y - 52) + int k)"
      by (simp only: ulp_def)
    also have "\<dots> = 2 powi (exponent y - 52) * 2 powi int k"
      by (rule power_int_add) simp
    finally have "ulp x = ulp y * 2 ^ k"
      by (simp add: ulp_def)
    then have "x / ulp y = of_int (n * 2 ^ k)"
      using xn ulp_pos[of y] by simp
    moreover have "x / ulp y \<le> y / ulp y"
      using xy ulp_pos[of y] by (simp add: divide_right_mono)
    ultimately have "n * 2 ^ k \<le> round_half_even (y / ulp y)"
      by (intro round_half_even_ge) simp
    then have "of_int (n * 2 ^ k) * ulp y \<le> r"
      unfolding r_def using ulp_pos[of y] by (intro mult_right_mono) (simp_all del: of_int_mult)
    moreover have "x = of_int (n * 2 ^ k) * ulp y"
      using \<open>x / ulp y = of_int (n * 2 ^ k)\<close> ulp_pos[of y] by (simp add: field_simps)
    ultimately show ?thesis by simp
  next
    case False
    then have lt: "exponent x + 1 \<le> exponent y" by simp
    have "\<not> \<bar>y\<bar> \<le> \<bar>x\<bar>"
      using exponent_mono[OF _ xlt, of y] False by blast
    with xy have ypos: "0 < y" and yabs: "\<bar>y\<bar> = y" by linarith+
    from lt exponent_ge[of x] have "exponent y \<noteq> - 1022" by linarith
    then have "2 powi (- 1022) \<le> \<bar>y\<bar>"
      using exponent_subnormal[of y] by fastforce
    then have low: "2 powi (exponent y) \<le> y"
      using exponent_normal(1)[OF _ ylt] yabs by simp
    have "(2::real) powi (exponent y) = 2 powi (52 + (exponent y - 52))"
      by simp
    also have "\<dots> = 2 powi 52 * 2 powi (exponent y - 52)"
      by (rule power_int_add) simp
    finally have "(2::real) powi (exponent y) = 2 powi 52 * ulp y"
      by (simp only: ulp_def)
    then have e: "(2::real) powi (exponent y) = of_int (2 ^ 52) * ulp y"
      by simp
    then have "of_int (2 ^ 52) \<le> y / ulp y"
      using low ulp_pos[of y] by (simp add: pos_le_divide_eq del: of_int_power of_int_numeral)
    then have "2 ^ 52 \<le> round_half_even (y / ulp y)"
      by (rule round_half_even_ge)
    then have "of_int (2 ^ 52) * ulp y \<le> r"
      unfolding r_def using ulp_pos[of y] by (intro mult_right_mono) (simp_all del: of_int_power)
    with e have "2 powi (exponent y) \<le> r" by simp
    moreover have "\<bar>x\<bar> < 2 powi (exponent x + 1)" using xlt by (rule exponent_upper)
    moreover have "(2::real) powi (exponent x + 1) \<le> 2 powi (exponent y)"
      using lt by (intro power_int_increasing) simp_all
    ultimately show ?thesis by linarith
  qed
  show ?thesis
  proof (cases "2 ^ 1024 \<le> \<bar>r\<bar>")
    case True
    have "0 \<le> y"
    proof (rule ccontr)
      assume "\<not> 0 \<le> y"
      then have "y / ulp y \<le> of_int 0"
        using ulp_pos[of y] by (simp add: divide_le_0_iff)
      then have "round_half_even (y / ulp y) \<le> 0" by (rule round_half_even_le)
      then have "r \<le> 0"
        unfolding r_def using ulp_pos[of y] by (simp add: mult_le_0_iff)
      with xr True xlt show False by linarith
    qed
    with True ylt show ?thesis
      by (simp add: round_double_def overflow_def Let_def r_def)
  next
    case False
    with ylt xr show ?thesis
      by (simp add: round_double_def Let_def r_def)
  qed
qed

subsection \<open>Comparisons\<close>

lemma js_ge_down: "js_ge a (Finite x) \<Longrightarrow> y \<le> x \<Longrightarrow> js_ge a (Finite y)"
  by (cases a) auto

lemma js_lt_not_ge: "js_lt a b \<Longrightarrow> \<not> js_ge a b"
  by (cases a; cases b) auto

subsection \<open>The rescan loop\<close>

lemma rescan_fields:
  "TAU (fst (rescan t xs (s, k))) = TAU s \<and> observations (fst (rescan t xs (s, k))) = observations s"
  by (induction xs arbitrary: s k) auto

lemma rescan_index:
  "snd (rescan t xs (s, k)) =
     k + length (filter (\<lambda>ob. js_ge (js_sub t (TAU s)) (timestamp ob)) xs)"
  by (induction xs arbitrary: s k) auto

subsection \<open>Expired observations are a prefix of a sorted buffer\<close>

lemma later_not_expired:
  assumes "sorted (map time_of (x # xs))"
    and "\<forall>ob\<in>set (x # xs). timestamp ob = Finite (time_of ob)"
    and "\<not> js_ge a (timestamp x)"
  shows "\<forall>ob\<in>set xs. \<not> js_ge a (timestamp ob)"
proof
  fix ob assume ob: "ob \<in> set xs"
  with assms(1) have "time_of x \<le> time_of ob" by auto
  moreover from assms(2) ob have "timestamp ob = Finite (time_of ob)" "timestamp x = Finite (time_of x)"
    by auto
  ultimately show "\<not> js_ge a (timestamp ob)"
    using assms(3) js_ge_down[of a "time_of ob" "time_of x"] by auto
qed

lemma sorted_drop_expired:
  assumes "sorted (map time_of xs)" and "\<forall>ob\<in>set xs. timestamp ob = Finite (time_of ob)"
  shows "drop (length (filter (\<lambda>ob. js_ge a (timestamp ob)) xs)) xs =
           filter (\<lambda>ob. \<not> js_ge a (timestamp ob)) xs"
  using assms
proof (induction xs)
  case Nil
  show ?case by simp
next
  case (Cons x xs)
  show ?case
  proof (cases "js_ge a (timestamp x)")
    case True
    with Cons show ?thesis by simp
  next
    case False
    from later_not_expired[OF Cons.prems False]
    have "filter (\<lambda>ob. js_ge a (timestamp ob)) xs = []"
      and "filter (\<lambda>ob. \<not> js_ge a (timestamp ob)) xs = xs"
      by (simp_all add: filter_empty_conv)
    with False show ?thesis by simp
  qed
qed

lemma sorted_take_expired:
  assumes "sorted (map time_of xs)" and "\<forall>ob\<in>set xs. timestamp ob = Finite (time_of ob)"
  shows "take (length (filter (\<lambda>ob. js_ge a (timestamp ob)) xs)) xs =
           filter (\<lambda>ob. js_ge a (timestamp ob)) xs"
  using assms
proof (induction xs)
  case Nil
  show ?case by simp
next
  case (Cons x xs)
  show ?case
  proof (cases "js_ge a (timestamp x)")
    case True
    with Cons show ?thesis by simp
  next
    case False
    from later_not_expired[OF Cons.prems False]
    have "filter (\<lambda>ob. js_ge a (timestamp ob)) xs = []"
      by (simp add: filter_empty_conv)
    with False show ?thesis by simp
  qed
qed

subsection \<open>The two paths of put\<close>

lemma put_slow:
  assumes "\<not> js_lt (js_sub t (TAU s)) (timestamp (hd (observations s @ [\<lparr>timestamp = t, cost = c\<rparr>])))"
  shows "put s t c =
     (let xs = observations s @ [\<lparr>timestamp = t, cost = c\<rparr>];
          r = rescan t xs
                (s\<lparr>observations := xs, sum_rt := Finite 0, min_rt := MAX_VALUE, max_rt := Finite 0\<rparr>, 0)
      in (fst r)\<lparr>observations := drop (snd r) xs\<rparr>)"
  using assms by (simp add: put_def Let_def case_prod_beta rescan_fields del: drop_append)

lemma put_fast:
  assumes "js_lt (js_sub t (TAU s)) (timestamp (hd (observations s @ [\<lparr>timestamp = t, cost = c\<rparr>])))"
  shows "put s t c =
     s\<lparr>observations := observations s @ [\<lparr>timestamp = t, cost = c\<rparr>],
       sum_rt := js_add (sum_rt s) c, min_rt := Math_min (min_rt s) c,
       max_rt := Math_max (max_rt s) c\<rparr>"
  using assms by (simp add: put_def Let_def)

lemma put_TAU: "TAU (put s t c) = TAU s"
  by (cases "js_lt (js_sub t (TAU s)) (timestamp (hd (observations s @ [\<lparr>timestamp = t, cost = c\<rparr>])))")
     (simp_all add: put_fast put_slow Let_def rescan_fields)

lemma pushed_ordered:
  assumes "ordered_upto t s"
  shows "sorted (map time_of (observations s @ [\<lparr>timestamp = Finite t, cost = c\<rparr>]))"
    and "\<forall>ob\<in>set (observations s @ [\<lparr>timestamp = Finite t, cost = c\<rparr>]).
           timestamp ob = Finite (time_of ob)"
  using assms by (auto simp: ordered_upto_def sorted_append time_of_def)

lemma put_observations:
  assumes "ordered_upto t s"
  shows "observations (put s (Finite t) c) =
           filter (\<lambda>ob. \<not> js_ge (js_sub (Finite t) (TAU s)) (timestamp ob))
                  (observations s @ [\<lparr>timestamp = Finite t, cost = c\<rparr>])"
proof -
  let ?xs = "observations s @ [\<lparr>timestamp = Finite t, cost = c\<rparr>]"
  let ?a = "js_sub (Finite t) (TAU s)"
  let ?reset = "s\<lparr>observations := ?xs, sum_rt := Finite 0, min_rt := MAX_VALUE, max_rt := Finite 0\<rparr>"
  note srt = pushed_ordered[OF assms, of c]
  show ?thesis
  proof (cases "js_lt ?a (timestamp (hd ?xs))")
    case True
    then have first: "\<not> js_ge ?a (timestamp (hd ?xs))"
      by (rule js_lt_not_ge)
    obtain x rest where xs: "?xs = x # rest"
      by (cases ?xs) auto
    from later_not_expired[of x rest ?a] srt first xs
    have "\<forall>ob\<in>set ?xs. \<not> js_ge ?a (timestamp ob)"
      by (simp del: map_append)
    then have "filter (\<lambda>ob. \<not> js_ge ?a (timestamp ob)) ?xs = ?xs"
      by (simp only: filter_id_conv)
    with True show ?thesis by (simp add: put_fast)
  next
    case False
    have "observations (put s (Finite t) c) = drop (snd (rescan (Finite t) ?xs (?reset, 0))) ?xs"
      using False by (simp add: put_slow Let_def)
    also have "\<dots> = drop (length (filter (\<lambda>ob. js_ge ?a (timestamp ob)) ?xs)) ?xs"
      by (simp add: rescan_index)
    also have "\<dots> = filter (\<lambda>ob. \<not> js_ge ?a (timestamp ob)) ?xs"
      by (rule sorted_drop_expired[OF srt])
    finally show ?thesis .
  qed
qed

subsection \<open>States reached from a fresh window by sorted input\<close>

lemma ordered_upto_fresh: "ordered_upto b (RollingTime tau)"
  by (simp add: ordered_upto_def RollingTime_def)

lemma put_ordered:
  assumes "ordered_upto b s" and "b \<le> t" and "t \<le> b'" and "is_double t"
  shows "ordered_upto b' (put s (Finite t) c)"
proof -
  from assms have o: "ordered_upto t s"
    by (auto simp: ordered_upto_def)
  let ?xs = "observations s @ [\<lparr>timestamp = Finite t, cost = c\<rparr>]"
  have "sorted (map time_of (filter (\<lambda>ob. \<not> js_ge (js_sub (Finite t) (TAU s)) (timestamp ob)) ?xs))"
    by (rule sorted_filter[OF pushed_ordered(1)[OF o]])
  moreover have "\<forall>ob\<in>set ?xs.
      timestamp ob = Finite (time_of ob) \<and> is_double (time_of ob) \<and> time_of ob \<le> b'"
    using o assms(3,4) by (auto simp: ordered_upto_def time_of_def)
  then have "\<forall>ob\<in>set (filter (\<lambda>ob. \<not> js_ge (js_sub (Finite t) (TAU s)) (timestamp ob)) ?xs).
      timestamp ob = Finite (time_of ob) \<and> is_double (time_of ob) \<and> time_of ob \<le> b'"
    by (simp only: set_filter) blast
  ultimately show ?thesis
    unfolding ordered_upto_def put_observations[OF o] by (rule conjI)
qed

lemma finite_times_snoc: "finite_times (xs @ [(t, c)]) = finite_times xs @ [(Finite t, c)]"
  by (simp add: finite_times_def)

lemma puts_snoc: "puts s (xs @ [(t, c)]) = put (puts s xs) t c"
  by (induction s xs rule: puts.induct) simp_all

lemma trace_snoc: "trace s (xs @ [(t, c)]) = trace s xs @ [put (puts s xs) t c]"
  by (induction s xs rule: trace.induct) simp_all

lemma puts_TAU: "TAU (puts s xs) = TAU s"
  by (induction s xs rule: puts.induct) (simp_all add: put_TAU)

lemma reach_ordered:
  "sorted (map fst (xs @ [(t, c)])) \<Longrightarrow> \<forall>p\<in>set xs. is_double (fst p) \<Longrightarrow>
     ordered_upto t (puts (RollingTime tau) (finite_times xs))"
proof (induction xs arbitrary: t c rule: rev_induct)
  case Nil
  show ?case by (simp add: ordered_upto_fresh finite_times_def)
next
  case (snoc p xs)
  obtain t' c' where p: "p = (t', c')" by (cases p)
  from snoc.prems p have "sorted (map fst (xs @ [(t', c')]))" and "t' \<le> t"
    and "\<forall>p\<in>set xs. is_double (fst p)" and "is_double t'"
    by (simp_all add: sorted_append)
  then show ?case
    using snoc.IH[of t' c'] p
    by (simp add: finite_times_snoc puts_snoc put_ordered[where b = t'])
qed

subsection \<open>What a put keeps and what it evicts\<close>

text \<open>
  An observation whose real age \<open>t - x\<close> has reached \<open>tau\<close> passes the test of the code,
  whatever the rounding of \<open>t - tau\<close>: its timestamp \<open>x\<close> is a double not above the exact
  difference, so it is not above the rounded one.
\<close>

lemma old_enough_expired:
  assumes "is_double x" and "tau \<le> t - x"
  shows "js_ge (js_sub (Finite t) (Finite tau)) (Finite x)"
proof -
  from assms(2) have "x \<le> t - tau" by simp
  with assms(1) show ?thesis by (simp add: round_double_ge)
qed

lemma put_kept_young:
  assumes "ordered_upto t s" and "is_double t" and "TAU s = Finite tau"
    and "ob \<in> set (observations (put s (Finite t) c))"
  shows "timestamp ob = Finite (time_of ob) \<and> t - time_of ob < tau"
proof -
  from assms(4) have "ob \<in> set (filter (\<lambda>ob. \<not> js_ge (js_sub (Finite t) (Finite tau)) (timestamp ob))
                               (observations s @ [\<lparr>timestamp = Finite t, cost = c\<rparr>]))"
    by (simp only: put_observations[OF assms(1)] assms(3))
  then have "ob \<in> set (observations s @ [\<lparr>timestamp = Finite t, cost = c\<rparr>]) \<and>
             \<not> js_ge (js_sub (Finite t) (Finite tau)) (timestamp ob)"
    by (simp only: set_filter mem_Collect_eq simp_thms)
  then have mem: "ob \<in> set (observations s @ [\<lparr>timestamp = Finite t, cost = c\<rparr>])"
    and kept: "\<not> js_ge (js_sub (Finite t) (Finite tau)) (timestamp ob)"
    by blast+
  from mem assms(1,2) have fin: "timestamp ob = Finite (time_of ob)" and dbl: "is_double (time_of ob)"
    by (auto simp: ordered_upto_def time_of_def)
  have "t - time_of ob < tau"
  proof (rule ccontr)
    assume "\<not> t - time_of ob < tau"
    then have "tau \<le> t - time_of ob" by simp
    from old_enough_expired[OF dbl this] kept fin show False by simp
  qed
  with fin show ?thesis by simp
qed

lemma put_keeps_new:
  assumes "ordered_upto t s"
    and "js_lt (js_sub (Finite t) (TAU s)) (Finite t)"
  shows "observations (put s (Finite t) c) \<noteq> []"
    and "last (observations (put s (Finite t) c)) = \<lparr>timestamp = Finite t, cost = c\<rparr>"
proof -
  from assms(2) have "\<not> js_ge (js_sub (Finite t) (TAU s)) (Finite t)"
    by (rule js_lt_not_ge)
  then show "observations (put s (Finite t) c) \<noteq> []"
    and "last (observations (put s (Finite t) c)) = \<lparr>timestamp = Finite t, cost = c\<rparr>"
    by (simp_all add: put_observations[OF assms(1)])
qed

subsection \<open>Observations more than a window apart\<close>

lemma spaced_snoc:
  "spaced tau (xs @ [q]) \<longleftrightarrow> spaced tau xs \<and> (xs \<noteq> [] \<longrightarrow> fst q - fst (last xs) > tau)"
  by (induction tau xs rule: spaced.induct) auto

lemma put_on_empty:
  assumes "observations s = []" and "js_lt (js_sub (Finite t) (TAU s)) (Finite t)"
  shows "observations (put s (Finite t) c) = [\<lparr>timestamp = Finite t, cost = c\<rparr>]"
  using assms by (simp add: put_fast)

lemma put_on_single_old:
  assumes "TAU s = Finite tau" and "observations s = [\<lparr>timestamp = Finite x, cost = d\<rparr>]"
    and "is_double x" and "tau < t - x" and "x \<le> t"
    and "js_lt (js_sub (Finite t) (Finite tau)) (Finite t)"
  shows "observations (put s (Finite t) c) = [\<lparr>timestamp = Finite t, cost = c\<rparr>]"
proof -
  from assms(2,3,5) have o: "ordered_upto t s"
    by (simp add: ordered_upto_def time_of_def)
  from assms(4) have "tau \<le> t - x" by simp
  from old_enough_expired[OF assms(3) this] js_lt_not_ge[OF assms(6)]
  show ?thesis by (simp add: put_observations[OF o] assms(1,2))
qed

lemma spaced_collapses:
  assumes "0 < tau" and "spaced tau xs" and "xs \<noteq> []"
    and "\<forall>p\<in>set xs. is_double (fst p) \<and> js_lt (js_sub (Finite (fst p)) (Finite tau)) (Finite (fst p))"
  shows "observations (puts (RollingTime (Finite tau)) (finite_times xs)) =
           [\<lparr>timestamp = Finite (fst (last xs)), cost = snd (last xs)\<rparr>]"
  using assms(2,3,4)
proof (induction xs rule: rev_induct)
  case Nil
  then show ?case by simp
next
  case (snoc p xs)
  obtain t c where p: "p = (t, c)" by (cases p)
  have tau: "TAU (puts (RollingTime (Finite tau)) (finite_times xs)) = Finite tau"
    by (simp add: puts_TAU RollingTime_def)
  from snoc.prems(3) p have lt: "js_lt (js_sub (Finite t) (Finite tau)) (Finite t)"
    by simp
  show ?case
  proof (cases "xs = []")
    case True
    then show ?thesis
      using lt by (simp add: p finite_times_def put_on_empty RollingTime_def)
  next
    case False
    with snoc have prev: "observations (puts (RollingTime (Finite tau)) (finite_times xs)) =
        [\<lparr>timestamp = Finite (fst (last xs)), cost = snd (last xs)\<rparr>]"
      and gap: "t - fst (last xs) > tau"
      by (simp_all add: spaced_snoc p)
    from False snoc.prems(3) have dbl: "is_double (fst (last xs))"
      by simp
    from gap assms(1) have le: "fst (last xs) \<le> t" by simp
    from put_on_single_old[OF tau prev dbl gap le lt]
    show ?thesis by (simp add: p finite_times_snoc puts_snoc)
  qed
qed

lemma put_nonpositive_TAU:
  assumes "tau \<le> 0" and "is_double t"
  shows "put (RollingTime (Finite tau)) (Finite t) c = RollingTime (Finite tau)"
proof -
  from assms(1) have "tau \<le> t - t" by simp
  from old_enough_expired[OF assms(2) this]
  have ge: "js_ge (js_sub (Finite t) (Finite tau)) (Finite t)" .
  then have "\<not> js_lt (js_sub (Finite t) (Finite tau)) (Finite t)"
    using js_lt_not_ge by blast
  with ge show ?thesis
    by (simp add: put_def RollingTime_def Let_def)
qed


section \<open>Properties of the command-line program\<close>






lemma parseObservation_malformed:
  assumes "malformed line"
  shows "\<exists>msg. parseObservation line rtw = (Some msg, rtw)"
proof (cases "length (split_on TAB line) = 2")
  case False
  then show ?thesis by (simp add: parseObservation_def)
next
  case True
  then obtain f0 f1 where f: "split_on TAB line = [f0, f1]"
    by (cases "split_on TAB line"; cases "tl (split_on TAB line)") auto
  with assms have "isNaN (Number f0) \<or> isNaN (Number f1)"
    by (simp add: malformed_def)
  with f show ?thesis by (auto simp add: parseObservation_def Let_def)
qed

lemma read_lines_append:
  "read_lines st (xs @ ys) =
     (case read_lines st xs of Inl a \<Rightarrow> Inl a | Inr st' \<Rightarrow> read_lines st' ys)"
  by (induction xs arbitrary: st) (auto split: sum.splits)

lemma line_handler_curLine:
  "line_handler st line = Inr st' \<Longrightarrow> curLine st' = curLine st + 1"
  by (auto simp: line_handler_def Let_def split: sum.splits prod.splits option.splits)

lemma read_lines_curLine:
  "read_lines st ls = Inr st' \<Longrightarrow> curLine st' = curLine st + length ls"
proof (induction ls arbitrary: st)
  case Nil
  then show ?case by simp
next
  case (Cons l ls)
  then show ?case
    by (auto split: sum.splits dest!: line_handler_curLine)
qed

subsection \<open>Evaluation on concrete inputs\<close>

lemma exponent_search_numeral:
  "exponent_search (numeral k) lo a =
     (if 2 powi (lo + 2 ^ pred_numeral k) \<le> a
      then exponent_search (pred_numeral k) (lo + 2 ^ pred_numeral k) a
      else exponent_search (pred_numeral k) lo a)"
  by (simp add: numeral_eq_Suc)

lemma exponent_search_1:
  "exponent_search 1 lo a = (if 2 powi (lo + 1) \<le> a then lo + 1 else lo)"
proof -
  have "exponent_search (Suc 0) lo a = (if 2 powi (lo + 1) \<le> a then lo + 1 else lo)"
    by simp
  then show ?thesis by (simp only: One_nat_def)
qed

lemmas round_eval = round_double_def ulp_def exponent_def round_half_even_def overflow_def
  is_double_def Let_def exponent_search_numeral exponent_search_1

lemmas put_eval = put_def RollingTime_def MAX_VALUE_def checkRtw_def finite_times_def

lemmas Number_eval = Number_def trim_def isStrWhiteSpaceChar_def StrNumericLiteral_def
  StrDecimalLiteral_def StrUnsignedDecimalLiteral_def isDigit_def digit_value_def
  ExponentPart_opt_def SignedInteger_def digits_value_def scale10_def IntegerLiteral_def
  str_def TAB_def isNaN_def

lemmas run_eval = parseObservation_def line_handler_def printRtwState_def start_def
  printTableHeader_def


section \<open>The claims of the specification\<close>

subsection \<open>Aggregates\<close>

text \<open>
  C1 (sum, min and max are those of the buffer after every put, for sorted input and a
  positive window). The code does not keep this for negative costs: \<open>max\<close> starts from
  \<open>0.0\<close>, at construction and at every rescan, so it stays \<open>0\<close> while every buffered
  cost is negative. With window 10, after \<open>put(1,-1)\<close>, \<open>put(5,-5)\<close>, \<open>put(20,-3)\<close> the
  buffer holds the single cost \<open>-3\<close> and \<open>max\<close> is \<open>0\<close>.
\<close>

theorem negative_costs_max_is_zero:
  "map cost (observations (puts (RollingTime (Finite 10))
      [(Finite 1, Finite (- 1)), (Finite 5, Finite (- 5)), (Finite 20, Finite (- 3))])) =
     [Finite (- 3)] \<and>
   sum_rt (puts (RollingTime (Finite 10))
      [(Finite 1, Finite (- 1)), (Finite 5, Finite (- 5)), (Finite 20, Finite (- 3))]) =
     Finite (- 3) \<and>
   min_rt (puts (RollingTime (Finite 10))
      [(Finite 1, Finite (- 1)), (Finite 5, Finite (- 5)), (Finite 20, Finite (- 3))]) =
     Finite (- 3) \<and>
   max_rt (puts (RollingTime (Finite 10))
      [(Finite 1, Finite (- 1)), (Finite 5, Finite (- 5)), (Finite 20, Finite (- 3))]) =
     Finite 0"
  by (simp add: put_eval round_eval)

text \<open>
  C4 (one put of \<open>(t, v)\<close> into a fresh window gives count 1 and sum, min, max all \<open>v\<close>,
  for every real \<open>v\<close>). For a negative \<open>v\<close> the code leaves \<open>max\<close> at its starting value:
  after \<open>put(1, -5)\<close> the window has count 1, sum \<open>-5\<close>, min \<open>-5\<close> and max \<open>0\<close>.
\<close>

theorem single_negative_put_max_is_zero:
  "checkRtw (put (RollingTime (Finite 10)) (Finite 1) (Finite (- 5))) =
     (1, Finite (- 5), Finite (- 5), Finite 0)"
  by (simp add: put_eval round_eval)

text \<open>
  C6 (scenario 1): with window 10 the calls \<open>put(1,1)\<close>, \<open>put(5,5)\<close>, \<open>put(10,10)\<close>,
  \<open>put(15,15)\<close>, \<open>put(30,30)\<close> leave, in this order, the states (count, sum, min, max)
  \<open>(1,1,1,1)\<close>, \<open>(2,6,1,5)\<close>, \<open>(3,16,1,10)\<close>, \<open>(2,25,10,15)\<close>, \<open>(1,30,30,30)\<close>.
\<close>

theorem scenario_roll_window:
  "map checkRtw (trace (RollingTime (Finite 10))
      [(Finite 1, Finite 1), (Finite 5, Finite 5), (Finite 10, Finite 10),
       (Finite 15, Finite 15), (Finite 30, Finite 30)]) =
     [(1, Finite 1, Finite 1, Finite 1), (2, Finite 6, Finite 1, Finite 5),
      (3, Finite 16, Finite 1, Finite 10), (2, Finite 25, Finite 10, Finite 15),
      (1, Finite 30, Finite 30, Finite 30)]"
  by (simp add: put_eval round_eval)

subsection \<open>Eviction\<close>

text \<open>
  In the theorems of this subsection the calls before the one looked at are \<open>xs\<close>, with
  finite timestamps that are doubles and in non-decreasing order, and costs of any kind.
  Ages \<open>t - x\<close> are exact differences of the timestamps; the code compares the double
  nearest to \<open>t - TAU\<close> with the timestamp.
\<close>

text \<open>
  C2 (boundary): after a put with timestamp \<open>t\<close>, an observation is retained only if its
  age \<open>t - timestamp\<close> is strictly less than \<open>TAU\<close>; so one whose age is exactly \<open>TAU\<close>
  is no longer in the buffer. What is left is an end piece of the buffer before the put
  with the new observation appended.
\<close>

theorem put_retains_only_younger:
  assumes "sorted (map fst (xs @ [(t, c)]))" and "\<forall>p\<in>set (xs @ [(t, c)]). is_double (fst p)"
  shows "suffix (observations (put (puts (RollingTime (Finite tau)) (finite_times xs)) (Finite t) c))
           (observations (puts (RollingTime (Finite tau)) (finite_times xs)) @
              [\<lparr>timestamp = Finite t, cost = c\<rparr>]) \<and>
         (\<forall>ob \<in> set (observations (put (puts (RollingTime (Finite tau)) (finite_times xs)) (Finite t) c)).
            \<exists>x. timestamp ob = Finite x \<and> t - x < tau) \<and>
         (\<forall>ob x. timestamp ob = Finite x \<and> t - x = tau \<longrightarrow>
            ob \<notin> set (observations (put (puts (RollingTime (Finite tau)) (finite_times xs)) (Finite t) c)))"
proof -
  let ?s = "puts (RollingTime (Finite tau)) (finite_times xs)"
  let ?xs = "observations ?s @ [\<lparr>timestamp = Finite t, cost = c\<rparr>]"
  let ?a = "js_sub (Finite t) (TAU ?s)"
  have tau: "TAU ?s = Finite tau"
    by (simp add: puts_TAU RollingTime_def)
  from assms have o: "ordered_upto t ?s" and dbl: "is_double t"
    by (auto intro: reach_ordered)
  have "observations (put ?s (Finite t) c) =
          drop (length (filter (\<lambda>ob. js_ge ?a (timestamp ob)) ?xs)) ?xs"
    by (simp only: put_observations[OF o] sorted_drop_expired[OF pushed_ordered[OF o]])
  then have end_piece: "suffix (observations (put ?s (Finite t) c)) ?xs"
    by (simp only: suffix_drop)
  have young: "\<forall>ob \<in> set (observations (put ?s (Finite t) c)). \<exists>x. timestamp ob = Finite x \<and> t - x < tau"
    using put_kept_young[OF o dbl tau] by blast
  then have "\<forall>ob x. timestamp ob = Finite x \<and> t - x = tau \<longrightarrow>
               ob \<notin> set (observations (put ?s (Finite t) c))"
    by fastforce
  with end_piece young show ?thesis by blast
qed

theorem put_retains_only_younger_witness:
  "sorted (map fst ([(1 :: real, Finite 1), (5, Finite 5)] @ [(11, Finite 7)])) \<and>
   is_double 1 \<and> is_double 5 \<and> is_double 11 \<and>
   \<lparr>timestamp = Finite 1, cost = Finite 1\<rparr> \<notin>
     set (observations (put (puts (RollingTime (Finite 10))
            (finite_times [(1, Finite 1), (5, Finite 5)])) (Finite 11) (Finite 7)))"
proof -
  have h1: "sorted (map fst ([(1, Finite 1), (5, Finite 5)] @ [(11 :: real, Finite 7)]))"
    by simp
  have d: "is_double 1" "is_double 5" "is_double 11"
    by (simp_all add: round_eval)
  then have h2: "\<forall>p\<in>set ([(1, Finite 1), (5, Finite 5)] @ [(11 :: real, Finite 7)]). is_double (fst p)"
    by simp
  have "timestamp \<lparr>timestamp = Finite 1, cost = Finite 1\<rparr> = Finite 1 \<and> (11 :: real) - 1 = 10"
    by simp
  with put_retains_only_younger[OF h1 h2, of 10] h1 d show ?thesis
    by blast
qed

text \<open>
  C3 as stated: every observation a put evicts has age at least \<open>TAU\<close>. The code compares
  with the rounded difference: with \<open>TAU = 2.5\<close>, after \<open>put(2^53, 1)\<close> the call
  \<open>put(2^53 + 2, 2)\<close> computes \<open>2^53 + 2 - 2.5\<close>, which rounds to \<open>2^53\<close>, and evicts the
  first observation at age 2.
\<close>

theorem rounded_cutoff_evicts_younger:
  "is_double (2 ^ 53) \<and> is_double (2 ^ 53 + 2) \<and> is_double 2.5 \<and>
   observations (puts (RollingTime (Finite 2.5)) (finite_times [(2 ^ 53, Finite 1)])) =
     [\<lparr>timestamp = Finite (2 ^ 53), cost = Finite 1\<rparr>] \<and>
   observations (puts (RollingTime (Finite 2.5))
       (finite_times [(2 ^ 53, Finite 1), (2 ^ 53 + 2, Finite 2)])) =
     [\<lparr>timestamp = Finite (2 ^ 53 + 2), cost = Finite 2\<rparr>] \<and>
   (2 ^ 53 + 2) - 2 ^ 53 < (2.5 :: real)"
  by (simp add: put_eval round_eval)

text \<open>
  C3, as amended: after a put with timestamp \<open>t\<close>, every observation left in the buffer
  has \<open>t - timestamp < TAU\<close>; the observations the put removed are a front piece of the
  buffer, and each of them passed the test of the code, \<open>t - TAU >= timestamp\<close> with the
  difference rounded to a double.
\<close>

theorem put_window_membership:
  assumes "sorted (map fst (xs @ [(t, c)]))" and "\<forall>p\<in>set (xs @ [(t, c)]). is_double (fst p)"
  shows "\<exists>evicted.
           observations (puts (RollingTime (Finite tau)) (finite_times xs)) @
               [\<lparr>timestamp = Finite t, cost = c\<rparr>] =
             evicted @ observations (put (puts (RollingTime (Finite tau)) (finite_times xs)) (Finite t) c) \<and>
           (\<forall>ob \<in> set evicted. js_ge (js_sub (Finite t) (Finite tau)) (timestamp ob)) \<and>
           (\<forall>ob \<in> set (observations (put (puts (RollingTime (Finite tau)) (finite_times xs)) (Finite t) c)).
              \<exists>x. timestamp ob = Finite x \<and> t - x < tau)"
proof -
  let ?s = "puts (RollingTime (Finite tau)) (finite_times xs)"
  let ?xs = "observations ?s @ [\<lparr>timestamp = Finite t, cost = c\<rparr>]"
  let ?a = "js_sub (Finite t) (Finite tau)"
  let ?k = "length (filter (\<lambda>ob. js_ge ?a (timestamp ob)) ?xs)"
  have tau: "TAU ?s = Finite tau"
    by (simp add: puts_TAU RollingTime_def)
  from assms have o: "ordered_upto t ?s" and dbl: "is_double t"
    by (auto intro: reach_ordered)
  note srt = pushed_ordered[OF o, of c]
  have post: "observations (put ?s (Finite t) c) = drop ?k ?xs"
    by (simp only: put_observations[OF o] tau sorted_drop_expired[OF srt])
  have "\<forall>ob \<in> set (take ?k ?xs). js_ge ?a (timestamp ob)"
    by (simp only: sorted_take_expired[OF srt]) simp
  moreover have "\<forall>ob \<in> set (observations (put ?s (Finite t) c)). \<exists>x. timestamp ob = Finite x \<and> t - x < tau"
    using put_kept_young[OF o dbl tau] by blast
  moreover have "?xs = take ?k ?xs @ observations (put ?s (Finite t) c)"
    by (simp only: post append_take_drop_id)
  ultimately show ?thesis by blast
qed

theorem put_window_membership_witness:
  "sorted (map fst ([(1 :: real, Finite 1), (5, Finite 5), (10, Finite 10)] @ [(15, Finite 15)])) \<and>
   is_double 1 \<and> is_double 5 \<and> is_double 10 \<and> is_double 15 \<and>
   (\<exists>evicted.
      observations (puts (RollingTime (Finite 10))
          (finite_times [(1, Finite 1), (5, Finite 5), (10, Finite 10)])) @
          [\<lparr>timestamp = Finite 15, cost = Finite 15\<rparr>] =
        evicted @ observations (put (puts (RollingTime (Finite 10))
          (finite_times [(1, Finite 1), (5, Finite 5), (10, Finite 10)])) (Finite 15) (Finite 15)) \<and>
      (\<forall>ob \<in> set evicted. js_ge (js_sub (Finite 15) (Finite 10)) (timestamp ob)) \<and>
      (\<forall>ob \<in> set (observations (put (puts (RollingTime (Finite 10))
          (finite_times [(1, Finite 1), (5, Finite 5), (10, Finite 10)])) (Finite 15) (Finite 15))).
         \<exists>x. timestamp ob = Finite x \<and> 15 - x < 10))"
proof -
  have h1: "sorted (map fst ([(1, Finite 1), (5, Finite 5), (10, Finite 10)] @ [(15 :: real, Finite 15)]))"
    by simp
  have d: "is_double 1" "is_double 5" "is_double 10" "is_double 15"
    by (simp_all add: round_eval)
  then have h2: "\<forall>p\<in>set ([(1, Finite 1), (5, Finite 5), (10, Finite 10)] @ [(15 :: real, Finite 15)]).
              is_double (fst p)"
    by simp
  from put_window_membership[OF h1 h2, of 10] show ?thesis
    using h1 d by blast
qed

text \<open>
  C7 as stated: puts spaced more than a positive \<open>TAU\<close> apart always leave one element.
  With \<open>TAU = 1\<close>, after \<open>put(0, 1)\<close> the call \<open>put(1e17, 2)\<close> computes \<open>1e17 - 1\<close>, which
  rounds to \<open>1e17\<close>; the put evicts both observations, its own too, and the buffer is
  empty.
\<close>

theorem spaced_put_absorbed_leaves_empty:
  "(0 :: real) < 1 \<and> spaced 1 [(0, Finite 1), (100000000000000000, Finite 2)] \<and>
   is_double 100000000000000000 \<and>
   observations (puts (RollingTime (Finite 1))
     (finite_times [(0, Finite 1), (100000000000000000, Finite 2)])) = []"
  by (simp add: put_eval round_eval)

text \<open>
  C7, as amended: when each timestamp exceeds the previous one by strictly more than a
  positive \<open>TAU\<close>, and at every put the double \<open>t - TAU\<close> is below \<open>t\<close> (the window size is
  not lost to rounding), the buffer after every put is exactly the observation just
  inserted.
\<close>

theorem spaced_puts_keep_one:
  assumes "0 < tau" and "spaced tau xs"
    and "\<forall>p\<in>set xs. is_double (fst p) \<and>
           js_lt (js_sub (Finite (fst p)) (Finite tau)) (Finite (fst p))"
  shows "map observations (trace (RollingTime (Finite tau)) (finite_times xs)) =
           map (\<lambda>(t, c). [\<lparr>timestamp = Finite t, cost = c\<rparr>]) xs"
  using assms(2,3)
proof (induction xs rule: rev_induct)
  case Nil
  show ?case by (simp add: finite_times_def)
next
  case (snoc p xs)
  obtain t c where p: "p = (t, c)" by (cases p)
  from snoc.prems have "spaced tau xs" by (simp add: spaced_snoc)
  with snoc.IH snoc.prems(2)
  have "map observations (trace (RollingTime (Finite tau)) (finite_times xs)) =
      map (\<lambda>(t, c). [\<lparr>timestamp = Finite t, cost = c\<rparr>]) xs" by simp
  moreover have "observations (put (puts (RollingTime (Finite tau)) (finite_times xs)) (Finite t) c) =
      [\<lparr>timestamp = Finite t, cost = c\<rparr>]"
    using spaced_collapses[OF assms(1) snoc.prems(1) _ snoc.prems(2)]
    by (simp add: p finite_times_snoc puts_snoc)
  ultimately show ?case by (simp add: p finite_times_snoc trace_snoc)
qed

theorem spaced_puts_keep_one_witness:
  "(0 :: real) < 10 \<and> spaced 10 [(1, Finite 4), (12, Finite 2), (40, Finite 9)] \<and>
   is_double 1 \<and> is_double 12 \<and> is_double 40 \<and>
   js_lt (js_sub (Finite 1) (Finite 10)) (Finite 1) \<and>
   js_lt (js_sub (Finite 12) (Finite 10)) (Finite 12) \<and>
   js_lt (js_sub (Finite 40) (Finite 10)) (Finite 40) \<and>
   map observations (trace (RollingTime (Finite 10))
       (finite_times [(1, Finite 4), (12, Finite 2), (40, Finite 9)])) =
     map (\<lambda>(t, c). [\<lparr>timestamp = Finite t, cost = c\<rparr>]) [(1, Finite 4), (12, Finite 2), (40, Finite 9)]"
proof -
  have h1: "(0 :: real) < 10" by simp
  have h2: "spaced 10 [(1, Finite 4), (12, Finite 2), (40, Finite 9)]" by simp
  have d: "is_double 1" "is_double 12" "is_double 40"
    "js_lt (js_sub (Finite 1) (Finite 10)) (Finite 1)"
    "js_lt (js_sub (Finite 12) (Finite 10)) (Finite 12)"
    "js_lt (js_sub (Finite 40) (Finite 10)) (Finite 40)"
    by (simp_all add: round_eval)
  then have h3: "\<forall>p\<in>set [(1 :: real, Finite 4), (12, Finite 2), (40, Finite 9)].
      is_double (fst p) \<and> js_lt (js_sub (Finite (fst p)) (Finite 10)) (Finite (fst p))"
    by simp
  from spaced_puts_keep_one[OF h1 h2 h3] show ?thesis
    using h1 h2 d by blast
qed

text \<open>
  C8 as stated, also when restricted to positive window sizes: the buffer is non-empty
  after every put. With \<open>TAU = 2^-60\<close> the call \<open>put(1, 5)\<close> computes \<open>1 - 2^-60\<close>, which
  rounds to \<open>1\<close>; the put evicts its own observation and the buffer is empty.
\<close>

theorem tiny_TAU_put_leaves_buffer_empty:
  "(0 :: real) < 1 / 2 ^ 60 \<and> is_double (1 / 2 ^ 60) \<and> is_double 1 \<and>
   observations (put (RollingTime (Finite (1 / 2 ^ 60))) (Finite 1) (Finite 5)) = []"
  by (simp add: put_eval round_eval)

text \<open>
  C8, as amended: the buffer is empty at construction, and after a put whose timestamp
  \<open>t\<close> has the double \<open>t - TAU\<close> below \<open>t\<close> (which needs a positive \<open>TAU\<close> that is not lost
  to rounding) it is non-empty: its last element is the observation just inserted.
\<close>

theorem put_keeps_inserted:
  assumes "sorted (map fst (xs @ [(t, c)]))" and "\<forall>p\<in>set (xs @ [(t, c)]). is_double (fst p)"
    and "js_lt (js_sub (Finite t) (Finite tau)) (Finite t)"
  shows "observations (RollingTime (Finite tau)) = [] \<and>
         observations (put (puts (RollingTime (Finite tau)) (finite_times xs)) (Finite t) c) \<noteq> [] \<and>
         last (observations (put (puts (RollingTime (Finite tau)) (finite_times xs)) (Finite t) c)) =
           \<lparr>timestamp = Finite t, cost = c\<rparr>"
proof -
  let ?s = "puts (RollingTime (Finite tau)) (finite_times xs)"
  have tau: "TAU ?s = Finite tau"
    by (simp add: puts_TAU RollingTime_def)
  from assms(1,2) have o: "ordered_upto t ?s"
    by (auto intro: reach_ordered)
  from assms(3) have lt: "js_lt (js_sub (Finite t) (TAU ?s)) (Finite t)"
    by (simp only: tau)
  have "observations (RollingTime (Finite tau)) = []"
    by (simp add: RollingTime_def)
  with put_keeps_new[OF o lt, of c] show ?thesis by blast
qed

theorem put_keeps_inserted_witness:
  "sorted (map fst ([(1 :: real, Finite 1), (5, Finite 5)] @ [(30, Finite 2)])) \<and>
   is_double 1 \<and> is_double 5 \<and> is_double 30 \<and>
   js_lt (js_sub (Finite 30) (Finite 10)) (Finite 30) \<and>
   observations (RollingTime (Finite 10)) = [] \<and>
   observations (put (puts (RollingTime (Finite 10)) (finite_times [(1, Finite 1), (5, Finite 5)]))
      (Finite 30) (Finite 2)) \<noteq> [] \<and>
   last (observations (put (puts (RollingTime (Finite 10)) (finite_times [(1, Finite 1), (5, Finite 5)]))
      (Finite 30) (Finite 2))) = \<lparr>timestamp = Finite 30, cost = Finite 2\<rparr>"
proof -
  have h1: "sorted (map fst ([(1, Finite 1), (5, Finite 5)] @ [(30 :: real, Finite 2)]))"
    by simp
  have d: "is_double 1" "is_double 5" "is_double 30"
    by (simp_all add: round_eval)
  then have h2: "\<forall>p\<in>set ([(1, Finite 1), (5, Finite 5)] @ [(30 :: real, Finite 2)]). is_double (fst p)"
    by simp
  have h3: "js_lt (js_sub (Finite 30) (Finite 10)) (Finite 30)"
    by (simp add: round_eval)
  from put_keeps_inserted[OF h1 h2 h3] show ?thesis
    using h1 d h3 by blast
qed

subsection \<open>Construction\<close>

text \<open>
  C5 as stated: construction with a window size that is not positive fails. The
  constructor has no check: \<open>new RollingTime(0)\<close> completes and returns a window.
\<close>

theorem zero_TAU_is_constructed:
  "new_RollingTime (Finite 0) =
     Inr \<lparr>TAU = Finite 0, observations = [], sum_rt = Finite 0, min_rt = MAX_VALUE,
          max_rt = Finite 0\<rparr>"
  by (simp add: new_RollingTime_def RollingTime_def)

text \<open>
  C5, as amended: construction never fails, whatever the window size. With a size that is
  not positive the window is degenerate: every put (with a finite timestamp) evicts the
  observation it has just inserted and leaves the window as the constructor made it.
\<close>

theorem nonpositive_TAU_accepted:
  "new_RollingTime w = Inr (RollingTime w) \<and>
   (tau \<le> 0 \<and> (\<forall>p\<in>set xs. is_double (fst p)) \<longrightarrow>
      puts (RollingTime (Finite tau)) (finite_times xs) = RollingTime (Finite tau))"
proof -
  have "tau \<le> 0 \<Longrightarrow> \<forall>p\<in>set xs. is_double (fst p) \<Longrightarrow>
          puts (RollingTime (Finite tau)) (finite_times xs) = RollingTime (Finite tau)"
    by (induction xs) (auto simp: finite_times_def put_nonpositive_TAU)
  then show ?thesis by (auto simp add: new_RollingTime_def)
qed

theorem nonpositive_TAU_accepted_witness:
  "(- 3 :: real) \<le> 0 \<and> is_double 1 \<and> is_double 2 \<and>
   new_RollingTime (Finite (- 3)) = Inr (RollingTime (Finite (- 3))) \<and>
   puts (RollingTime (Finite (- 3))) (finite_times [(1, Finite 1), (2, Finite 8)]) =
     RollingTime (Finite (- 3))"
proof -
  have h1: "(- 3 :: real) \<le> 0" by simp
  have d: "is_double 1" "is_double 2"
    by (simp_all add: round_eval)
  then have h2: "\<forall>p\<in>set [(1 :: real, Finite 1), (2, Finite 8)]. is_double (fst p)"
    by simp
  from nonpositive_TAU_accepted[of "Finite (- 3)" "- 3" "[(1, Finite 1), (2, Finite 8)]"]
  show ?thesis using h1 h2 d by blast
qed

subsection \<open>Lines of the input file\<close>

text \<open>
  C9: a line that does not split on tab into exactly two fields, or that has a field
  which does not convert to a number, leaves the window as it was; the handler appends
  to the error channel a message with the 1-based number of the line, and the lines
  after it are read from that state. Here \<open>before\<close> are the lines read so far.
\<close>

theorem malformed_line_reported_and_skipped:
  assumes "read_lines (start rtw0) before = Inr st" and "malformed line"
  shows "\<exists>msg. parseObservation line (the_rtw st) = (Some msg, the_rtw st) \<and>
           line_handler st line =
             Inr (st\<lparr>curLine := length before + 1,
                     stderr := stderr st @
                       [str ''Error on line '' @ decimal (length before + 1) @ str '': '' @ msg]\<rparr>) \<and>
           read_lines (start rtw0) (before @ line # rest) =
             read_lines (st\<lparr>curLine := length before + 1,
                            stderr := stderr st @
                              [str ''Error on line '' @ decimal (length before + 1) @ str '': '' @ msg]\<rparr>)
               rest"
proof -
  from parseObservation_malformed[OF assms(2)]
  obtain msg where msg: "parseObservation line (the_rtw st) = (Some msg, the_rtw st)"
    by blast
  have n: "curLine st = length before"
    using read_lines_curLine[OF assms(1)] by (simp add: start_def)
  have h: "line_handler st line =
             Inr (st\<lparr>curLine := length before + 1,
                     stderr := stderr st @
                       [str ''Error on line '' @ decimal (length before + 1) @ str '': '' @ msg]\<rparr>)"
    by (simp add: line_handler_def msg n Let_def)
  have "read_lines (start rtw0) (before @ line # rest) =
             read_lines (st\<lparr>curLine := length before + 1,
                            stderr := stderr st @
                              [str ''Error on line '' @ decimal (length before + 1) @ str '': '' @ msg]\<rparr>)
               rest"
    by (simp add: read_lines_append assms(1) h)
  with msg h show ?thesis by blast
qed

theorem malformed_line_reported_and_skipped_witness:
  "read_lines (start (RollingTime (Finite 60))) [str ''1'' @ [TAB] @ str ''5''] =
     Inr ((start (RollingTime (Finite 60)))
            \<lparr>the_rtw := put (RollingTime (Finite 60)) (Finite 1) (Finite 5), curLine := 1,
             stdout := printTableHeader @ [Row (Finite 1) (Finite 5) 1 (Finite 5) (Finite 5) (Finite 5)]\<rparr>) \<and>
   malformed (str ''n/a'') \<and>
   (\<exists>st'. read_lines (start (RollingTime (Finite 60)))
             ([str ''1'' @ [TAB] @ str ''5''] @ str ''n/a'' # [str ''2'' @ [TAB] @ str ''7'']) =
            read_lines st' [str ''2'' @ [TAB] @ str ''7''] \<and>
          the_rtw st' = put (RollingTime (Finite 60)) (Finite 1) (Finite 5) \<and> curLine st' = 2 \<and>
          stderr st' =
            [str ''Error on line 2: Expected format: ${TIMESTAMP}'' @ [TAB] @ str ''${COST}, got: n/a''])"
proof -
  let ?st = "(start (RollingTime (Finite 60)))
            \<lparr>the_rtw := put (RollingTime (Finite 60)) (Finite 1) (Finite 5), curLine := 1,
             stdout := printTableHeader @ [Row (Finite 1) (Finite 5) 1 (Finite 5) (Finite 5) (Finite 5)]\<rparr>"
  let ?err = "[str ''Error on line 2: Expected format: ${TIMESTAMP}'' @ [TAB] @ str ''${COST}, got: n/a'']"
  have h1: "read_lines (start (RollingTime (Finite 60))) [str ''1'' @ [TAB] @ str ''5''] = Inr ?st"
    by (simp add: run_eval Number_eval put_eval round_eval)
  have h2: "malformed (str ''n/a'')"
    by (simp add: malformed_def Number_eval)
  have p: "parseObservation (str ''n/a'') (the_rtw ?st) =
             (Some (str ''Expected format: ${TIMESTAMP}'' @ [TAB] @ str ''${COST}, got: n/a''), the_rtw ?st)"
    by (simp add: parseObservation_def str_def TAB_def)
  have d: "decimal (Suc (Suc 0)) = str ''2''"
    by (simp add: decimal.simps str_def)
  from malformed_line_reported_and_skipped[OF h1 h2, of "[str ''2'' @ [TAB] @ str ''7'']"]
  obtain msg where
    m: "parseObservation (str ''n/a'') (the_rtw ?st) = (Some msg, the_rtw ?st)" and
    r: "read_lines (start (RollingTime (Finite 60)))
          ([str ''1'' @ [TAB] @ str ''5''] @ str ''n/a'' # [str ''2'' @ [TAB] @ str ''7'']) =
          read_lines (?st\<lparr>curLine := length [str ''1'' @ [TAB] @ str ''5''] + 1,
                         stderr := stderr ?st @
                           [str ''Error on line '' @
                            decimal (length [str ''1'' @ [TAB] @ str ''5''] + 1) @ str '': '' @ msg]\<rparr>)
            [str ''2'' @ [TAB] @ str ''7'']"
    by blast
  from m p have msg: "msg = str ''Expected format: ${TIMESTAMP}'' @ [TAB] @ str ''${COST}, got: n/a''"
    by simp
  have e: "?st\<lparr>curLine := length [str ''1'' @ [TAB] @ str ''5''] + 1,
                         stderr := stderr ?st @
                           [str ''Error on line '' @
                            decimal (length [str ''1'' @ [TAB] @ str ''5''] + 1) @ str '': '' @ msg]\<rparr> =
           ?st\<lparr>curLine := 2, stderr := ?err\<rparr>"
    by (simp add: d start_def msg str_def)
  from r have "read_lines (start (RollingTime (Finite 60)))
          ([str ''1'' @ [TAB] @ str ''5''] @ str ''n/a'' # [str ''2'' @ [TAB] @ str ''7'']) =
          read_lines (?st\<lparr>curLine := 2, stderr := ?err\<rparr>) [str ''2'' @ [TAB] @ str ''7'']"
    by (simp only: e)
  moreover have "the_rtw (?st\<lparr>curLine := 2, stderr := ?err\<rparr>) =
                   put (RollingTime (Finite 60)) (Finite 1) (Finite 5)"
    and "curLine (?st\<lparr>curLine := 2, stderr := ?err\<rparr>) = 2"
    and "stderr (?st\<lparr>curLine := 2, stderr := ?err\<rparr>) = ?err"
    by simp_all
  ultimately show ?thesis
    using h1 h2 by blast
qed




end
